theory Spec2Isabelle
  imports Main "HOL-Library.Sublist" "HOL-Library.AList"
begin

section \<open>Strings\<close>

text \<open>
  Strings of the server are modelled as lists of 8-bit characters holding ASCII text.
  \<open>toLowerCase\<close> maps the letters A to Z to a to z and leaves every other character
  alone; \<open>str_includes s t\<close> is \<open>s.includes(t)\<close>, the substring test; \<open>join\<close> is
  \<open>Array.prototype.join\<close>.
\<close>

definition lower_char :: "char \<Rightarrow> char" where
  "lower_char c =
     (let n = (of_char c :: nat) in if 65 \<le> n \<and> n \<le> 90 then char_of (n + 32) else c)"

definition toLowerCase :: "string \<Rightarrow> string" where
  "toLowerCase s = map lower_char s"

fun str_includes :: "string \<Rightarrow> string \<Rightarrow> bool" where
  "str_includes [] t = (t = [])"
| "str_includes (c # cs) t = (prefix t (c # cs) \<or> str_includes cs t)"

fun join :: "string \<Rightarrow> string list \<Rightarrow> string" where
  "join sep [] = []"
| "join sep [x] = x"
| "join sep (x # y # ys) = x @ sep @ join sep (y # ys)"

definition nl :: string where
  "nl = [CHR 0x0A]"

definition dq :: string where
  "dq = [CHR 0x22]"

text \<open>The em dash of the pricing lines, in UTF-8.\<close>

definition em_dash :: string where
  "em_dash = [CHR 0xE2, CHR 0x80, CHR 0x94]"

text \<open>A number inside a template literal: its decimal digits.\<close>

definition digit :: "nat \<Rightarrow> char" where
  "digit d = char_of (48 + d)"

fun show_nat :: "nat \<Rightarrow> string" where
  "show_nat n = (if n < 10 then [digit n] else show_nat (n div 10) @ [digit (n mod 10)])"

declare show_nat.simps [simp del]

text \<open>
  \<open>xs.slice(0, e)\<close>: a negative end counts from the end of the array, and the result is
  clamped to the array.
\<close>

definition slice0 :: "'a list \<Rightarrow> int \<Rightarrow> 'a list" where
  "slice0 xs e = (if e < 0 then take (nat (int (length xs) + e)) xs else take (nat e) xs)"

text \<open>
  The truth value of an optional string in a condition: an absent string and the empty
  string are false.
\<close>

definition truthy :: "string option \<Rightarrow> bool" where
  "truthy s = (case s of None \<Rightarrow> False | Some v \<Rightarrow> v \<noteq> [])"

text \<open>
  The white space of the regular expression \<open>\s\<close> within ASCII: tab, line feed,
  vertical tab, form feed, carriage return and space.
\<close>

definition is_ws :: "char \<Rightarrow> bool" where
  "is_ws c = ((of_char c :: nat) \<in> {9, 10, 11, 12, 13, 32})"

text \<open>
  \<open>s.split(/\s+/)\<close>: the pieces of \<open>s\<close> between its maximal runs of white space. A
  string that starts or ends with white space yields an empty first or last piece, and
  the empty string yields one empty piece.
\<close>

function split_ws :: "string \<Rightarrow> string list" where
  "split_ws s =
     (case dropWhile (\<lambda>c. \<not> is_ws c) s of
        [] \<Rightarrow> [s]
      | r # rest \<Rightarrow> takeWhile (\<lambda>c. \<not> is_ws c) s # split_ws (dropWhile is_ws rest))"
  by pat_completeness auto
termination
proof (relation "measure length")
  show "wf (measure length)" by simp
next
  fix s :: string and r rest
  assume "dropWhile (\<lambda>c. \<not> is_ws c) s = r # rest"
  then have "length s \<ge> Suc (length rest)"
    by (metis length_Cons length_dropWhile_le)
  moreover have "length (dropWhile is_ws rest) \<le> length rest"
    by (rule length_dropWhile_le)
  ultimately show "(dropWhile is_ws rest, s) \<in> measure length" by simp
qed

declare split_ws.simps [simp del]

section \<open>The catalog\<close>

text \<open>
  The protocol configuration and the agent record of the catalog. Optional fields are
  options; the enumerations (category, pricing model, autonomy level) are the strings the
  handlers compare them with. The env mapping is a list of key and value pairs in
  insertion order.
\<close>

record mcp_config =
  command :: string
  args :: "string list"
  env :: "(string \<times> string) list option"
  cfg_description :: "string option"

record agent =
  slug :: string
  name :: string
  tagline :: string
  description :: string
  url :: string
  primary_category :: string
  secondary_categories :: "string list"
  pricing_model :: string
  pricing_details :: string
  autonomy_level :: string
  open_source :: bool
  repo_url :: "string option"
  mcp_support :: bool
  mcp_config :: "mcp_config option"
  tags :: "string list"
  capabilities :: "string list"
  best_for :: "string list"
  limitations :: "string list"
  not_ideal_for :: "string list"
  reliability_notes :: string
  access_methods :: "string list"
  integrates_with :: "string list"

text \<open>
  The catalog \<open>AGENTS\<close> and the mapping \<open>CATEGORY_LABELS\<close> are data of the server that
  every function below takes as a parameter: the catalog is a list of agents in iteration
  order, the label mapping a list of (key, label) pairs in iteration order.
\<close>

type_synonym catalog = "agent list"
type_synonym labels = "(string \<times> string) list"

section \<open>Scoring\<close>

definition query_words :: "string \<Rightarrow> string list" where
  "query_words q = filter (\<lambda>w. length w > 2) (split_ws q)"

text \<open>
  \<open>CATEGORY_LABELS[agent.primary_category]?.toLowerCase() || ''\<close>: the lowercased label,
  the empty string when the category has no label.
\<close>

definition categoryLabel :: "labels \<Rightarrow> agent \<Rightarrow> string" where
  "categoryLabel CATEGORY_LABELS a =
     (case map_of CATEGORY_LABELS (primary_category a) of
        None \<Rightarrow> []
      | Some l \<Rightarrow> toLowerCase l)"

text \<open>
  \<open>scoreAgent\<close>, statement by statement: the score is threaded through the loops, the
  inner loop over the words running inside each outer iteration.
\<close>

definition word_loop :: "int \<Rightarrow> string \<Rightarrow> string list \<Rightarrow> int \<Rightarrow> int" where
  "word_loop k s words score =
     fold (\<lambda>word score. if str_includes s word then score + k else score) words score"

definition scoreAgent :: "labels \<Rightarrow> agent \<Rightarrow> string \<Rightarrow> int" where
  "scoreAgent CATEGORY_LABELS a query =
     (let q = toLowerCase query;
          words = query_words q;
          score = 0;
          score = (if str_includes (toLowerCase (name a)) q then score + 50 else score);
          score = (if str_includes (toLowerCase (tagline a)) q then score + 30 else score);
          score = fold (\<lambda>tag score.
                    let score = (if str_includes q tag \<or> str_includes tag q then score + 20 else score)
                    in word_loop 10 tag words score) (tags a) score;
          score = fold (\<lambda>cap score.
                    let capLower = toLowerCase cap;
                        score = (if str_includes capLower q then score + 15 else score)
                    in word_loop 5 capLower words score) (capabilities a) score;
          score = fold (\<lambda>bf score.
                    let bfLower = toLowerCase bf;
                        score = (if str_includes bfLower q then score + 25 else score)
                    in word_loop 8 bfLower words score) (best_for a) score;
          score = fold (\<lambda>nif score.
                    let nifLower = toLowerCase nif
                    in word_loop (- 5) nifLower words score) (not_ideal_for a) score;
          score = word_loop 10 (categoryLabel CATEGORY_LABELS a) words score
      in score)"

text \<open>
  The score as the specification words it: a sum of independent terms, each a weight
  times the number of matching entries or of matching (entry, word) pairs.
\<close>

definition count_matching :: "('a \<Rightarrow> bool) \<Rightarrow> 'a list \<Rightarrow> int" where
  "count_matching P xs = int (length (filter P xs))"

definition count_pairs :: "string list \<Rightarrow> string list \<Rightarrow> int" where
  "count_pairs entries words =
     count_matching (\<lambda>(e, w). str_includes e w) (List.product entries words)"

definition score_spec :: "labels \<Rightarrow> agent \<Rightarrow> string \<Rightarrow> int" where
  "score_spec CATEGORY_LABELS a query =
     (let q = toLowerCase query;
          words = query_words q
      in (if str_includes (toLowerCase (name a)) q then 50 else 0)
       + (if str_includes (toLowerCase (tagline a)) q then 30 else 0)
       + 20 * count_matching (\<lambda>tag. str_includes q tag \<or> str_includes tag q) (tags a)
       + 10 * count_pairs (tags a) words
       + 15 * count_matching (\<lambda>c. str_includes c q) (map toLowerCase (capabilities a))
       + 5 * count_pairs (map toLowerCase (capabilities a)) words
       + 25 * count_matching (\<lambda>b. str_includes b q) (map toLowerCase (best_for a))
       + 8 * count_pairs (map toLowerCase (best_for a)) words
       - 5 * count_pairs (map toLowerCase (not_ideal_for a)) words
       + 10 * count_matching (str_includes (categoryLabel CATEGORY_LABELS a)) words)"

section \<open>Formatting\<close>

text \<open>
  The values handed to \<open>JSON.stringify\<close>, and \<open>JSON.stringify(v, null, 2)\<close> itself:
  strings are quoted and escaped, a non-empty array or object puts each member on a line
  of its own, indented by two more spaces than its parent.
\<close>

datatype json = JString string | JArray "json list" | JObject "(string \<times> json) list"

definition hex_digit :: "nat \<Rightarrow> char" where
  "hex_digit d = (if d < 10 then char_of (48 + d) else char_of (87 + d))"

definition escape_char :: "char \<Rightarrow> string" where
  "escape_char c =
     (let n = (of_char c :: nat) in
      if n = 34 then [CHR 0x5C, CHR 0x22]
      else if n = 92 then [CHR 0x5C, CHR 0x5C]
      else if n = 8 then [CHR 0x5C, CHR ''b'']
      else if n = 12 then [CHR 0x5C, CHR ''f'']
      else if n = 10 then [CHR 0x5C, CHR ''n'']
      else if n = 13 then [CHR 0x5C, CHR ''r'']
      else if n = 9 then [CHR 0x5C, CHR ''t'']
      else if n < 32 then [CHR 0x5C, CHR ''u'', CHR ''0'', CHR ''0'',
                           hex_digit (n div 16), hex_digit (n mod 16)]
      else [c])"

definition quote :: "string \<Rightarrow> string" where
  "quote s = dq @ concat (map escape_char s) @ dq"

text \<open>
  The serialisation keeps the current indentation as a string and extends it by the gap
  of two spaces for the members of an array or object.
\<close>

definition gap :: string where
  "gap = ''  ''"

fun stringify :: "string \<Rightarrow> json \<Rightarrow> string" where
  "stringify ind (JString s) = quote s"
| "stringify ind (JArray xs) =
     (if xs = [] then ''[]''
      else ''['' @ nl
           @ join ('','' @ nl) (map (\<lambda>x. (ind @ gap) @ stringify (ind @ gap) x) xs)
           @ nl @ ind @ '']'')"
| "stringify ind (JObject kvs) =
     (if kvs = [] then ''{}''
      else ''{'' @ nl
           @ join ('','' @ nl)
               (map (\<lambda>kv. (ind @ gap) @ quote (fst kv) @ '': ''
                            @ stringify (ind @ gap) (snd kv)) kvs)
           @ nl @ ind @ ''}'')"

text \<open>
  The object both views hand to \<open>JSON.stringify\<close>: \<open>command\<close>, \<open>args\<close>, and the spread
  \<open>...(env && { env: env })\<close>, which adds the key \<open>env\<close> when the field holds a mapping
  and nothing when it is absent.
\<close>

definition config_object :: "mcp_config \<Rightarrow> json" where
  "config_object cfg =
     JObject ([(''command'', JString (command cfg)),
               (''args'', JArray (map JString (args cfg)))]
              @ (case env cfg of
                   None \<Rightarrow> []
                 | Some e \<Rightarrow> [(''env'', JObject (map (\<lambda>kv. (fst kv, JString (snd kv))) e))]))"

definition config_block :: "mcp_config \<Rightarrow> string list" where
  "config_block cfg = [''```json'', stringify [] (config_object cfg), ''```'']"

definition bullets :: "string list \<Rightarrow> string list" where
  "bullets xs = map (\<lambda>x. ''- '' @ x) xs"

text \<open>
  \<open>CATEGORY_LABELS[agent.primary_category] || agent.primary_category\<close>: the label, the
  key itself when the label is absent or empty.
\<close>

definition category_display :: "labels \<Rightarrow> agent \<Rightarrow> string" where
  "category_display CATEGORY_LABELS a =
     (if truthy (map_of CATEGORY_LABELS (primary_category a))
      then the (map_of CATEGORY_LABELS (primary_category a))
      else primary_category a)"

definition mcp_section :: "agent \<Rightarrow> string list" where
  "mcp_section a =
     (if mcp_support a \<and> mcp_config a \<noteq> None
      then (let cfg = the (mcp_config a)
            in ['''', ''## MCP Server Configuration''] @ config_block cfg
               @ (if truthy (cfg_description cfg)
                  then [''*'' @ the (cfg_description cfg) @ ''*''] else []))
      else [])"

definition detail_head :: "labels \<Rightarrow> agent \<Rightarrow> string list" where
  "detail_head CATEGORY_LABELS a =
     [''# '' @ name a,
      ''*'' @ tagline a @ ''*'',
      '''',
      ''**URL:** '' @ url a,
      ''**Category:** '' @ category_display CATEGORY_LABELS a,
      ''**Pricing:** '' @ pricing_model a @ '' '' @ em_dash @ '' '' @ pricing_details a,
      ''**Autonomy Level:** '' @ autonomy_level a,
      ''**Open Source:** '' @ (if open_source a then ''Yes'' else ''No'')
        @ (if truthy (repo_url a) then '' ('' @ the (repo_url a) @ '')'' else ''''),
      ''**MCP Support:** '' @ (if mcp_support a then ''Yes'' else ''No'')]"

definition detail_tail :: "agent \<Rightarrow> string list" where
  "detail_tail a =
     ['''', ''## Description'', description a, '''', ''## Best For'']
     @ bullets (best_for a)
     @ ['''', ''## Capabilities'']
     @ bullets (capabilities a)
     @ ['''', ''## Limitations'']
     @ bullets (limitations a)
     @ ['''', ''## Not Ideal For'']
     @ bullets (not_ideal_for a)
     @ ['''', ''## Reliability'', reliability_notes a,
        '''', ''## Access Methods'', join '', '' (access_methods a),
        '''', ''## Integrations'',
        (if length (integrates_with a) > 0 then join '', '' (integrates_with a)
         else ''None listed'')]"

text \<open>
  The lines of \<open>formatAgentDetail\<close>: the initial array, the configuration section pushed
  when there is one, and the lines of the last \<open>push\<close>.
\<close>

definition formatAgentDetail_lines :: "labels \<Rightarrow> agent \<Rightarrow> string list" where
  "formatAgentDetail_lines CATEGORY_LABELS a =
     detail_head CATEGORY_LABELS a @ mcp_section a @ detail_tail a"

definition formatAgentDetail :: "labels \<Rightarrow> agent \<Rightarrow> string" where
  "formatAgentDetail CATEGORY_LABELS a = join nl (formatAgentDetail_lines CATEGORY_LABELS a)"

section \<open>Search\<close>

record search_params =
  query :: string
  category :: "string option"
  pricing :: "string option"
  limit :: int

text \<open>
  The two filters of the search handler. Each runs only when its parameter is truthy, the
  pricing filter on what the category filter kept.
\<close>

definition category_filter :: "string option \<Rightarrow> agent list \<Rightarrow> agent list" where
  "category_filter copt filtered =
     (if truthy copt
      then (let cat = the copt
            in filter (\<lambda>a. primary_category a = cat \<or> cat \<in> set (secondary_categories a))
                 filtered)
      else filtered)"

definition pricing_filter :: "string option \<Rightarrow> agent list \<Rightarrow> agent list" where
  "pricing_filter popt filtered =
     (if truthy popt
      then filter (\<lambda>a. pricing_model a = the popt) filtered
      else filtered)"

definition search_filter :: "string option \<Rightarrow> string option \<Rightarrow> agent list \<Rightarrow> agent list" where
  "search_filter copt popt agents =
     pricing_filter popt (category_filter copt agents)"

text \<open>
  Score and rank: the items with a positive score, sorted by the comparator
  \<open>b.score - a.score\<close>, cut to the limit. \<open>Array.prototype.sort\<close> is stable, so the sort
  is the stable sort by descending score, here the insertion sort on the negated score.
\<close>

definition rank :: "labels \<Rightarrow> agent list \<Rightarrow> string \<Rightarrow> int \<Rightarrow> (agent \<times> int) list" where
  "rank CATEGORY_LABELS filtered q lim =
     (let scored = filter (\<lambda>item. snd item > 0)
                     (map (\<lambda>a. (a, scoreAgent CATEGORY_LABELS a q)) filtered);
          scored = sort_key (\<lambda>item. - snd item) scored
      in slice0 scored lim)"

definition search_results :: "labels \<Rightarrow> catalog \<Rightarrow> search_params \<Rightarrow> (agent \<times> int) list" where
  "search_results CATEGORY_LABELS AGENTS params =
     rank CATEGORY_LABELS (search_filter (category params) (pricing params) AGENTS)
       (query params) (limit params)"

definition no_results_text :: "string \<Rightarrow> string" where
  "no_results_text q =
     ''No agents found matching '' @ dq @ q @ dq
     @ ''. Try different keywords or browse by category using yagoo_list_categories.''"

definition result_lines :: "nat \<Rightarrow> agent \<Rightarrow> string list" where
  "result_lines i a =
     [''## '' @ show_nat (i + 1) @ ''. '' @ name a,
      ''*'' @ tagline a @ ''*'',
      '''',
      ''**Why it fits:** '' @ join ''; '' (take 2 (best_for a)),
      ''**Watch out for:** ''
        @ (case limitations a of
             [] \<Rightarrow> ''No major limitations noted''
           | l # _ \<Rightarrow> if l \<noteq> [] then l else ''No major limitations noted''),
      ''**Pricing:** '' @ pricing_model a @ '' '' @ em_dash @ '' '' @ pricing_details a,
      ''**URL:** '' @ url a]
     @ (if mcp_support a \<and> mcp_config a \<noteq> None
        then (let cfg = the (mcp_config a)
              in [''**MCP:** `'' @ command cfg @ '' '' @ join '' '' (args cfg) @ ''`''])
        else [])
     @ ['''']"

definition yagoo_search :: "labels \<Rightarrow> catalog \<Rightarrow> search_params \<Rightarrow> string" where
  "yagoo_search CATEGORY_LABELS AGENTS params =
     (let results = search_results CATEGORY_LABELS AGENTS params
      in if length results = 0 then no_results_text (query params)
         else join nl
           ([''# YAGOO Search Results: '' @ dq @ query params @ dq,
             ''Found '' @ show_nat (length results) @ '' matching agent''
               @ (if length results \<noteq> 1 then ''s'' else ''''),
             '''']
            @ concat (map (\<lambda>i. result_lines i (fst (results ! i))) [0..<length results])
            @ [''---'',
               ''*Use yagoo_get_agent with slug for full details. Use yagoo_compare to compare options.*'']))"

section \<open>Agent details\<close>

definition find_agent :: "catalog \<Rightarrow> string \<Rightarrow> agent option" where
  "find_agent AGENTS s = find (\<lambda>a. slug a = s) AGENTS"

definition suggestions :: "catalog \<Rightarrow> string \<Rightarrow> string list" where
  "suggestions AGENTS s =
     map slug
       (take 3
          (filter (\<lambda>a. str_includes (slug a) s
                       \<or> str_includes (toLowerCase (name a)) (toLowerCase s)) AGENTS))"

definition not_found_text :: "string \<Rightarrow> string list \<Rightarrow> string" where
  "not_found_text s sugg =
     ''Agent '' @ dq @ s @ dq @ '' not found.''
     @ (if length sugg > 0 then '' Did you mean: '' @ join '', '' sugg @ ''?''
        else '' Use yagoo_search to find agents.'')"

definition yagoo_get_agent :: "labels \<Rightarrow> catalog \<Rightarrow> string \<Rightarrow> string" where
  "yagoo_get_agent CATEGORY_LABELS AGENTS s =
     (case find_agent AGENTS s of
        None \<Rightarrow> not_found_text s (suggestions AGENTS s)
      | Some a \<Rightarrow> formatAgentDetail CATEGORY_LABELS a)"

section \<open>Categories\<close>

text \<open>
  \<open>categoryCounts\<close> is the object the handler fills: its keys in insertion order, a new
  key appended, the count of a known key replaced in place. \<open>count_or_zero\<close> is the
  read \<open>categoryCounts[k] || 0\<close>.
\<close>

definition count_or_zero :: "(string \<times> nat) list \<Rightarrow> string \<Rightarrow> nat" where
  "count_or_zero counts k = (case map_of counts k of None \<Rightarrow> 0 | Some c \<Rightarrow> c)"

definition categoryCounts :: "catalog \<Rightarrow> (string \<times> nat) list" where
  "categoryCounts AGENTS =
     fold (\<lambda>a counts.
             AList.update (primary_category a) (count_or_zero counts (primary_category a) + 1)
               counts)
       AGENTS []"

definition category_line :: "(string \<times> nat) list \<Rightarrow> string \<times> string \<Rightarrow> string" where
  "category_line counts entry =
     (let key = fst entry; label = snd entry; count = count_or_zero counts key
      in ''- **'' @ label @ ''** ('' @ key @ ''): '' @ show_nat count @ '' agent''
         @ (if count \<noteq> 1 then ''s'' else ''''))"

definition category_lines :: "labels \<Rightarrow> catalog \<Rightarrow> string list" where
  "category_lines CATEGORY_LABELS AGENTS =
     map (category_line (categoryCounts AGENTS)) CATEGORY_LABELS"

definition categories_header :: "catalog \<Rightarrow> string list" where
  "categories_header AGENTS =
     [''# YAGOO Agent Categories'',
      '''',
      ''Total: '' @ show_nat (length AGENTS) @ '' agents across ''
        @ show_nat (length (categoryCounts AGENTS)) @ '' categories'',
      '''']"

definition categories_footer :: "string list" where
  "categories_footer =
     ['''', ''*Use yagoo_search with category filter to explore specific categories.*'']"

definition yagoo_list_categories :: "labels \<Rightarrow> catalog \<Rightarrow> string" where
  "yagoo_list_categories CATEGORY_LABELS AGENTS =
     join nl
       (categories_header AGENTS
        @ category_lines CATEGORY_LABELS AGENTS
        @ categories_footer)"

section \<open>Comparison\<close>

text \<open>
  The resolution loop: each slug is looked up by exact match and pushed on \<open>agents\<close> or
  on \<open>notFound\<close>. The state of the loop is the pair of the two arrays.
\<close>

definition resolve_step :: "catalog \<Rightarrow> string \<Rightarrow> agent list \<times> string list \<Rightarrow> agent list \<times> string list" where
  "resolve_step AGENTS s st =
     (case find_agent AGENTS s of
        Some a \<Rightarrow> (fst st @ [a], snd st)
      | None \<Rightarrow> (fst st, snd st @ [s]))"

definition resolve_slugs :: "catalog \<Rightarrow> string list \<Rightarrow> agent list \<times> string list" where
  "resolve_slugs AGENTS slugs = fold (resolve_step AGENTS) slugs ([], [])"

text \<open>
  The three picks of the quick recommendations: \<open>find\<close> with the three arrow functions,
  named here.
\<close>

definition budget_friendly :: "agent \<Rightarrow> bool" where
  "budget_friendly a =
     (pricing_model a = ''free'' \<or> pricing_model a = ''open_source''
      \<or> pricing_model a = ''freemium'')"

definition fully_autonomous :: "agent \<Rightarrow> bool" where
  "fully_autonomous a = (autonomy_level a = ''fully_autonomous'')"

definition freeAgent :: "agent list \<Rightarrow> agent option" where
  "freeAgent agents = find budget_friendly agents"

definition autonomousAgent :: "agent list \<Rightarrow> agent option" where
  "autonomousAgent agents = find fully_autonomous agents"

definition mcpAgent :: "agent list \<Rightarrow> agent option" where
  "mcpAgent agents = find mcp_support agents"

definition pick_line :: "string \<Rightarrow> agent option \<Rightarrow> string list" where
  "pick_line title pick =
     (case pick of None \<Rightarrow> [] | Some a \<Rightarrow> [''- **'' @ title @ ''**: '' @ name a])"

definition recommendation_lines :: "agent list \<Rightarrow> string list" where
  "recommendation_lines agents =
     pick_line ''Budget-friendly'' (freeAgent agents)
     @ pick_line ''For autonomous operation'' (autonomousAgent agents)
     @ pick_line ''MCP integration'' (mcpAgent agents)"

definition comparison_tables :: "agent list \<Rightarrow> string list" where
  "comparison_tables agents =
     [''# Agent Comparison: '' @ join '' vs '' (map name agents), '''']
     @ [''## Pricing'']
     @ map (\<lambda>a. ''- **'' @ name a @ ''**: '' @ pricing_model a @ '' '' @ em_dash @ '' ''
                  @ pricing_details a) agents
     @ ['''']
     @ [''## Autonomy Level'']
     @ map (\<lambda>a. ''- **'' @ name a @ ''**: '' @ autonomy_level a) agents
     @ ['''']
     @ [''## Best For'']
     @ concat (map (\<lambda>a. (''**'' @ name a @ '':**'')
                         # map (\<lambda>bf. ''  - '' @ bf) (take 3 (best_for a))) agents)
     @ ['''']
     @ [''## Watch Out For'']
     @ concat (map (\<lambda>a. (''**'' @ name a @ '':**'')
                         # map (\<lambda>lim. ''  - '' @ lim) (take 2 (limitations a))) agents)
     @ ['''']"

definition comparison_lines :: "agent list \<Rightarrow> string list" where
  "comparison_lines agents =
     comparison_tables agents
     @ [''## Quick Recommendations'']
     @ recommendation_lines agents"

text \<open>
  The three ways the handler returns, in the order of its checks, and the text of each.
\<close>

datatype compare_outcome =
    Unresolved "string list"
  | TooFew
  | Compared "agent list"

definition compare_outcome :: "catalog \<Rightarrow> string list \<Rightarrow> compare_outcome" where
  "compare_outcome AGENTS slugs =
     (let st = resolve_slugs AGENTS slugs; agents = fst st; notFound = snd st
      in if length notFound > 0 then Unresolved notFound
         else if length agents < 2 then TooFew
         else Compared agents)"

definition too_few_text :: string where
  "too_few_text = ''Need at least 2 valid agents to compare.''"

fun outcome_text :: "compare_outcome \<Rightarrow> string" where
  "outcome_text (Unresolved notFound) =
     ''Agents not found: '' @ join '', '' notFound
     @ ''. Use yagoo_search to find valid agent slugs.''"
| "outcome_text TooFew = too_few_text"
| "outcome_text (Compared agents) = join nl (comparison_lines agents)"

definition yagoo_compare :: "catalog \<Rightarrow> string list \<Rightarrow> string" where
  "yagoo_compare AGENTS slugs = outcome_text (compare_outcome AGENTS slugs)"

section \<open>Protocol-capable listing\<close>

definition mcpAgents :: "catalog \<Rightarrow> agent list" where
  "mcpAgents AGENTS = filter (\<lambda>a. mcp_support a \<and> mcp_config a \<noteq> None) AGENTS"

text \<open>
  The lines of one listed agent. The handler reads \<open>agent.mcp_config!\<close>, which the filter
  before the loop makes safe; an agent without a configuration would raise there, and
  the model gives it no lines.
\<close>

definition mcp_entry_lines :: "agent \<Rightarrow> string list" where
  "mcp_entry_lines a =
     (case mcp_config a of
        None \<Rightarrow> []
      | Some cfg \<Rightarrow>
          [''## '' @ name a, ''*'' @ tagline a @ ''*'', '''', ''**Connection:**'']
          @ config_block cfg
          @ (if truthy (cfg_description cfg) then [the (cfg_description cfg)] else [])
          @ [''''])"

definition list_mcp_lines :: "catalog \<Rightarrow> string list" where
  "list_mcp_lines AGENTS =
     [''# MCP-Enabled Agents'',
      '''',
      show_nat (length (mcpAgents AGENTS)) @ '' agents with MCP server support:'',
      '''']
     @ concat (map mcp_entry_lines (mcpAgents AGENTS))
     @ [''---'', ''*Add to Claude Code: `claude mcp add <name> -- <command> <args>`*'']"

definition yagoo_list_mcp :: "catalog \<Rightarrow> string" where
  "yagoo_list_mcp AGENTS = join nl (list_mcp_lines AGENTS)"

section \<open>Notions of the specification\<close>

text \<open>
  ``The first element in list order that satisfies \<open>P\<close>, none when no element does'': the
  reading of a pick or of a lookup by \<open>find\<close>.
\<close>

definition is_first_where :: "('a \<Rightarrow> bool) \<Rightarrow> 'a list \<Rightarrow> 'a option \<Rightarrow> bool" where
  "is_first_where P xs r =
     (case r of
        None \<Rightarrow> \<forall>x \<in> set xs. \<not> P x
      | Some a \<Rightarrow> \<exists>i < length xs. xs ! i = a \<and> P a \<and> (\<forall>j < i. \<not> P (xs ! j)))"

text \<open>
  The filter as the specification words it: a given category keeps the agents whose
  primary category it is or whose secondary categories hold it, a given pricing keeps the
  agents with that pricing model, and both conditions must hold.
\<close>

definition filter_spec :: "string option \<Rightarrow> string option \<Rightarrow> agent list \<Rightarrow> agent list" where
  "filter_spec copt popt agents =
     filter (\<lambda>a. (case copt of
                     None \<Rightarrow> True
                   | Some c \<Rightarrow> primary_category a = c \<or> c \<in> set (secondary_categories a))
                \<and> (case popt of None \<Rightarrow> True | Some p \<Rightarrow> pricing_model a = p)) agents"

text \<open>What the handler takes as given: a parameter that is present and not empty.\<close>

definition given :: "string option \<Rightarrow> string option" where
  "given s = (if truthy s then s else None)"

text \<open>The number of agents whose primary category is the key.\<close>

definition primary_count :: "catalog \<Rightarrow> string \<Rightarrow> nat" where
  "primary_count AGENTS k = length (filter (\<lambda>a. primary_category a = k) AGENTS)"

text \<open>
  A suggestion candidate: its slug contains the query slug, or its name contains it when
  both are compared in lower case. \<open>sublist\<close> is the substring relation of the library.
\<close>

definition suggest_match :: "string \<Rightarrow> agent \<Rightarrow> bool" where
  "suggest_match s a =
     (sublist s (slug a) \<or> sublist (toLowerCase s) (toLowerCase (name a)))"

text \<open>The keys of a rendered object, in order.\<close>

fun json_keys :: "json \<Rightarrow> string list" where
  "json_keys (JObject kvs) = map fst kvs"
| "json_keys _ = []"

section \<open>A small catalog\<close>

text \<open>Three agents and three categories, used to run the handlers on concrete inputs.\<close>

definition ex_labels :: labels where
  "ex_labels =
     [(''coding_development'', ''Coding & Development''),
      (''browser_automation'', ''Browser & Web Automation''),
      (''research_analysis'', ''Research & Analysis'')]"

definition ex_cursor_config :: mcp_config where
  "ex_cursor_config =
     \<lparr> command = ''npx'', args = [''-y'', ''cursor-mcp''],
       env = None, cfg_description = None \<rparr>"

definition ex_firecrawl_config :: mcp_config where
  "ex_firecrawl_config =
     \<lparr> command = ''npx'', args = [''-y'', ''firecrawl-mcp''],
       env = Some [(''FIRECRAWL_API_KEY'', ''key'')],
       cfg_description = Some ''Needs an API key'' \<rparr>"

definition ex_cursor :: agent where
  "ex_cursor =
     \<lparr> slug = ''cursor'', name = ''Cursor'', tagline = ''The AI code editor'',
       description = ''An editor built around an assistant.'',
       url = ''https://cursor.com'',
       primary_category = ''coding_development'', secondary_categories = [],
       pricing_model = ''freemium'', pricing_details = ''Free tier, paid plans'',
       autonomy_level = ''supervised'', open_source = False, repo_url = None,
       mcp_support = True,
       mcp_config = Some ex_cursor_config,
       tags = [''coding'', ''ide''],
       capabilities = [''Code completion'', ''Refactoring''],
       best_for = [''Writing code in an editor''],
       limitations = [''Needs a subscription for heavy use''],
       not_ideal_for = [''Scraping websites''],
       reliability_notes = ''Stable.'',
       access_methods = [''desktop''], integrates_with = [] \<rparr>"

definition ex_firecrawl :: agent where
  "ex_firecrawl =
     \<lparr> slug = ''firecrawl'', name = ''Firecrawl'', tagline = ''Turn websites into data'',
       description = ''A crawler with an API.'',
       url = ''https://firecrawl.dev'',
       primary_category = ''browser_automation'',
       secondary_categories = [''research_analysis''],
       pricing_model = ''paid'', pricing_details = ''Usage based'',
       autonomy_level = ''fully_autonomous'', open_source = True,
       repo_url = Some ''https://github.com/firecrawl/firecrawl'',
       mcp_support = True,
       mcp_config = Some ex_firecrawl_config,
       tags = [''web-scraping'', ''crawler''],
       capabilities = [''Crawl websites'', ''Extract structured data''],
       best_for = [''scraping websites at scale''],
       limitations = [''Rate limits''],
       not_ideal_for = [''Writing code''],
       reliability_notes = ''Stable.'',
       access_methods = [''api'', ''mcp''], integrates_with = [''langchain''] \<rparr>"

definition ex_crawl4ai :: agent where
  "ex_crawl4ai =
     \<lparr> slug = ''crawl4ai'', name = ''Crawl4AI'', tagline = ''Open source crawling for websites'',
       description = ''A crawler to run yourself.'',
       url = ''https://crawl4ai.com'',
       primary_category = ''browser_automation'', secondary_categories = [],
       pricing_model = ''open_source'', pricing_details = ''Free'',
       autonomy_level = ''supervised'', open_source = True, repo_url = None,
       mcp_support = False, mcp_config = None,
       tags = [''crawler''],
       capabilities = [''Crawl pages''],
       best_for = [''scraping websites on a budget''],
       limitations = [],
       not_ideal_for = [],
       reliability_notes = ''Young project.'',
       access_methods = [''library''], integrates_with = [] \<rparr>"

definition ex_catalog :: catalog where
  "ex_catalog = [ex_cursor, ex_firecrawl, ex_crawl4ai]"

section \<open>The score is the sum of its terms\<close>

lemma fold_add:
  fixes g :: "'a \<Rightarrow> int \<Rightarrow> int"
  assumes "\<And>e sc. g e sc = sc + w e"
  shows "fold g es sc = sc + sum_list (map w es)"
  by (induction es arbitrary: sc) (simp_all add: assms algebra_simps)

lemma word_loop_eq: "word_loop k s ws sc = sc + k * count_matching (str_includes s) ws"
  unfolding word_loop_def count_matching_def
  by (induction ws arbitrary: sc) (simp_all add: algebra_simps)

lemma count_pairs_Nil: "count_pairs [] ws = 0"
  by (simp add: count_pairs_def count_matching_def)

lemma count_pairs_Cons:
  "count_pairs (e # es) ws = count_matching (str_includes e) ws + count_pairs es ws"
  by (simp add: count_pairs_def count_matching_def filter_map o_def)

lemma sum_entry_weights:
  "sum_list (map (\<lambda>e. (if Q (f e) then k1 else 0)
                      + k2 * count_matching (str_includes (f e)) ws) es)
     = k1 * count_matching Q (map f es) + k2 * count_pairs (map f es) ws"
proof (induction es)
  case Nil
  show ?case by (simp add: count_pairs_Nil count_matching_def)
next
  case (Cons e es)
  have "count_matching Q (map f (e # es))
          = (if Q (f e) then 1 else 0) + count_matching Q (map f es)"
    by (simp add: count_matching_def)
  then show ?case
    by (simp add: Cons.IH count_pairs_Cons algebra_simps)
qed

lemma entry_loop_eq:
  "fold (\<lambda>e sc. word_loop k2 (f e) ws (if Q (f e) then sc + k1 else sc)) es sc
     = sc + k1 * count_matching Q (map f es) + k2 * count_pairs (map f es) ws"
proof -
  have "fold (\<lambda>e sc. word_loop k2 (f e) ws (if Q (f e) then sc + k1 else sc)) es sc
      = sc + sum_list (map (\<lambda>e. (if Q (f e) then k1 else 0)
                      + k2 * count_matching (str_includes (f e)) ws) es)"
    by (rule fold_add) (simp add: word_loop_eq)
  then show ?thesis by (simp add: sum_entry_weights)
qed

lemma entry_loop_neg:
  "fold (\<lambda>e sc. word_loop k2 (f e) ws sc) es sc = sc + k2 * count_pairs (map f es) ws"
  using entry_loop_eq [of k2 f ws "\<lambda>_. False" 0 es sc] by (simp add: count_matching_def)

text \<open>
  C1. For every agent and every query, \<open>scoreAgent\<close> returns the additive sum of the
  specification: 50 for the name and 30 for the tagline containing the query, per tag 20
  for a substring match in either direction and 10 per contained word, per capability 15
  and 5, per best-for entry 25 and 8, minus 5 per (not-ideal-for entry, word) pair, and
  10 per word found in the category label, the words being the tokens of the lowercased
  query longer than 2. Every term contributes; the sum may be zero or negative.
\<close>

theorem scoreAgent_additive: "scoreAgent L a q0 = score_spec L a q0"
proof -
  define q where "q = toLowerCase q0"
  define ws where "ws = query_words q"
  note tags = entry_loop_eq [of 10 "\<lambda>t. t" ws
      "\<lambda>tag. str_includes q tag \<or> str_includes tag q" 20 "tags a"]
  note caps = entry_loop_eq [of 5 toLowerCase ws "\<lambda>c. str_includes c q" 15 "capabilities a"]
  note bfs = entry_loop_eq [of 8 toLowerCase ws "\<lambda>c. str_includes c q" 25 "best_for a"]
  note nifs = entry_loop_neg [of "- 5" toLowerCase ws "not_ideal_for a"]
  have "scoreAgent L a q0 =
        word_loop 10 (categoryLabel L a) ws
          (0 + (if str_includes (toLowerCase (name a)) q then 50 else 0)
             + (if str_includes (toLowerCase (tagline a)) q then 30 else 0)
             + 20 * count_matching (\<lambda>tag. str_includes q tag \<or> str_includes tag q) (tags a)
             + 10 * count_pairs (tags a) ws
             + 15 * count_matching (\<lambda>c. str_includes c q) (map toLowerCase (capabilities a))
             + 5 * count_pairs (map toLowerCase (capabilities a)) ws
             + 25 * count_matching (\<lambda>b. str_includes b q) (map toLowerCase (best_for a))
             + 8 * count_pairs (map toLowerCase (best_for a)) ws
             + (- 5) * count_pairs (map toLowerCase (not_ideal_for a)) ws)"
    unfolding scoreAgent_def Let_def q_def [symmetric] ws_def [symmetric]
    unfolding tags [simplified] caps bfs nifs
    by simp
  then show ?thesis
    unfolding score_spec_def Let_def q_def [symmetric] ws_def [symmetric]
    by (simp add: word_loop_eq)
qed

theorem scoreAgent_additive_witness:
  "scoreAgent ex_labels ex_firecrawl ''Scrape Websites'' = 13
   \<and> score_spec ex_labels ex_firecrawl ''Scrape Websites'' = 13
   \<and> scoreAgent ex_labels ex_cursor ''Scrape Websites'' = - 5"
  using scoreAgent_additive [of ex_labels ex_firecrawl "''Scrape Websites''"]
  by code_simp

section \<open>Properties of the ranking\<close>

lemma slice0_is_take: "\<exists>n. slice0 xs e = take n xs"
  unfolding slice0_def by auto

lemma slice0_length_le: "length (slice0 xs e) \<le> length xs"
  unfolding slice0_def by auto

lemma slice0_limit: "0 \<le> e \<Longrightarrow> int (length (slice0 xs e)) \<le> e"
  unfolding slice0_def by simp

lemma rank_is_take:
  "\<exists>n. rank L sub q lim
        = take n (sort_key (\<lambda>item. - snd item)
                   (filter (\<lambda>item. snd item > 0) (map (\<lambda>a. (a, scoreAgent L a q)) sub)))"
  unfolding rank_def Let_def by (rule slice0_is_take)

lemma rank_set:
  "set (rank L sub q lim)
     \<subseteq> {item. snd item > 0 \<and> fst item \<in> set sub \<and> snd item = scoreAgent L (fst item) q}"
proof -
  let ?sc = "filter (\<lambda>item. snd item > 0) (map (\<lambda>a. (a, scoreAgent L a q)) sub)"
  obtain n where n: "rank L sub q lim = take n (sort_key (\<lambda>item. - snd item) ?sc)"
    using rank_is_take by blast
  have "set (rank L sub q lim) \<subseteq> set (sort_key (\<lambda>item. - snd item) ?sc)"
    unfolding n by (rule set_take_subset)
  then have "set (rank L sub q lim) \<subseteq> set ?sc"
    by (simp only: set_sort)
  then show ?thesis by auto
qed

lemma rank_sorted: "sorted_wrt (\<lambda>x y. snd y \<le> snd x) (rank L sub q lim)"
proof -
  let ?sc = "filter (\<lambda>item. snd item > 0) (map (\<lambda>a. (a, scoreAgent L a q)) sub)"
  obtain n where n: "rank L sub q lim = take n (sort_key (\<lambda>item. - snd item) ?sc)"
    using rank_is_take by blast
  have "sorted (map (\<lambda>item. - snd item) (sort_key (\<lambda>item. - snd item) ?sc))"
    by (rule sorted_sort_key)
  then have "sorted_wrt (\<lambda>x y. snd y \<le> snd x) (sort_key (\<lambda>item. - snd item) ?sc)"
    by (simp add: sorted_map)
  then show ?thesis unfolding n by (rule sorted_wrt_take)
qed

lemma rank_stable:
  "prefix (filter (\<lambda>item. snd item = k) (rank L sub q lim))
          (filter (\<lambda>item. snd item = k) (map (\<lambda>a. (a, scoreAgent L a q)) sub))"
proof -
  let ?all = "map (\<lambda>a. (a, scoreAgent L a q)) sub"
  let ?sc = "filter (\<lambda>item. snd item > 0) ?all"
  obtain n where n: "rank L sub q lim = take n (sort_key (\<lambda>item. - snd item) ?sc)"
    using rank_is_take by blast
  have "prefix (filter (\<lambda>item. snd item = k) (rank L sub q lim))
               (filter (\<lambda>item. snd item = k) (sort_key (\<lambda>item. - snd item) ?sc))"
    unfolding n by (rule filter_mono_prefix) (rule take_is_prefix)
  moreover have "filter (\<lambda>item. snd item = k) (sort_key (\<lambda>item. - snd item) ?sc)
                   = filter (\<lambda>item. snd item = k) ?sc"
    using sort_key_stable [of "\<lambda>item. - snd item" "- k" ?sc] by simp
  ultimately have p: "prefix (filter (\<lambda>item. snd item = k) (rank L sub q lim))
                        (filter (\<lambda>item. snd item = k) ?sc)"
    by simp
  show ?thesis
  proof (cases "k > 0")
    case True
    then have "filter (\<lambda>item. snd item = k) ?sc = filter (\<lambda>item. snd item > 0 \<and> snd item = k) ?all"
      by (simp add: conj_commute)
    also have "\<dots> = filter (\<lambda>item. snd item = k) ?all"
      using True by (intro filter_cong) auto
    finally have "filter (\<lambda>item. snd item = k) ?sc = filter (\<lambda>item. snd item = k) ?all" .
    moreover have "True"
      by simp
    ultimately show ?thesis using p by simp
  next
    case False
    then have "filter (\<lambda>item. snd item = k) ?sc = []"
      by (auto simp: filter_empty_conv)
    with p show ?thesis by simp
  qed
qed

lemma search_empty:
  "search_results L A p = [] \<Longrightarrow> yagoo_search L A p = no_results_text (query p)"
  unfolding yagoo_search_def by simp

text \<open>
  C2. For every filtered set of agents, query and limit, the ranked result holds only
  agents of that set with their score, every score strictly positive; it is sorted by
  non-increasing score; the entries of equal score stand in the order of the filtered
  set, which is catalog order (for every score, the entries of the result with that
  score are the first ones of the filtered set with that score, in its order); it has at
  most \<open>limit\<close> entries when the limit is not negative, and at most as many as the
  filtered set. The search handler ranks the filtered catalog, and an empty ranked result
  makes it answer with the no-results message.
\<close>

theorem search_rank_sound:
  "(\<forall>item \<in> set (rank L sub q lim).
       0 < snd item \<and> fst item \<in> set sub \<and> snd item = scoreAgent L (fst item) q)
   \<and> sorted_wrt (\<lambda>x y. snd y \<le> snd x) (rank L sub q lim)
   \<and> (\<forall>k. prefix (filter (\<lambda>item. snd item = k) (rank L sub q lim))
                  (filter (\<lambda>item. snd item = k) (map (\<lambda>a. (a, scoreAgent L a q)) sub)))
   \<and> (0 \<le> lim \<longrightarrow> int (length (rank L sub q lim)) \<le> lim)
   \<and> length (rank L sub q lim) \<le> length sub
   \<and> search_results L A p
       = rank L (search_filter (category p) (pricing p) A) (query p) (limit p)
   \<and> (search_results L A p = [] \<longrightarrow> yagoo_search L A p = no_results_text (query p))"
proof -
  let ?sc = "filter (\<lambda>item. snd item > 0) (map (\<lambda>a. (a, scoreAgent L a q)) sub)"
  have "length (rank L sub q lim) \<le> length (sort_key (\<lambda>item. - snd item) ?sc)"
    unfolding rank_def Let_def by (rule slice0_length_le)
  also have "\<dots> = length ?sc"
    by (rule length_sort)
  also have "\<dots> \<le> length (map (\<lambda>a. (a, scoreAgent L a q)) sub)"
    by (rule length_filter_le)
  finally have len: "length (rank L sub q lim) \<le> length sub" by simp
  have lim: "0 \<le> lim \<longrightarrow> int (length (rank L sub q lim)) \<le> lim"
    unfolding rank_def Let_def by (simp add: slice0_limit)
  have mem: "\<forall>item \<in> set (rank L sub q lim).
       0 < snd item \<and> fst item \<in> set sub \<and> snd item = scoreAgent L (fst item) q"
    using rank_set [of L sub q lim] by blast
  have st: "\<forall>k. prefix (filter (\<lambda>item. snd item = k) (rank L sub q lim))
                  (filter (\<lambda>item. snd item = k) (map (\<lambda>a. (a, scoreAgent L a q)) sub))"
    using rank_stable by blast
  have eq: "search_results L A p
       = rank L (search_filter (category p) (pricing p) A) (query p) (limit p)"
    by (simp add: search_results_def)
  have emp: "search_results L A p = [] \<longrightarrow> yagoo_search L A p = no_results_text (query p)"
    using search_empty by blast
  from mem rank_sorted [of L sub q lim] st lim len eq emp show ?thesis
    by blast
qed

theorem search_rank_sound_witness:
  "(0::int) \<le> 1
   \<and> map (\<lambda>item. (slug (fst item), snd item)) (rank ex_labels ex_catalog ''crawler'' 5)
       = [(''firecrawl'', 30), (''crawl4ai'', 30)]
   \<and> map (\<lambda>item. (slug (fst item), snd item)) (rank ex_labels (rev ex_catalog) ''crawler'' 5)
       = [(''crawl4ai'', 30), (''firecrawl'', 30)]
   \<and> int (length (rank ex_labels ex_catalog ''crawler'' 1)) \<le> 1
   \<and> search_results ex_labels ex_catalog
         \<lparr>query = ''zzz'', category = None, pricing = None, limit = 1\<rparr> = []
   \<and> yagoo_search ex_labels ex_catalog
         \<lparr>query = ''zzz'', category = None, pricing = None, limit = 1\<rparr>
       = no_results_text ''zzz''"
proof -
  let ?p = "\<lparr>query = ''zzz'', category = None, pricing = None, limit = 1\<rparr>"
  have r1: "map (\<lambda>item. (slug (fst item), snd item)) (rank ex_labels ex_catalog ''crawler'' 5)
       = [(''firecrawl'', 30), (''crawl4ai'', 30)]"
    by code_simp
  have r2: "map (\<lambda>item. (slug (fst item), snd item))
              (rank ex_labels (rev ex_catalog) ''crawler'' 5)
       = [(''crawl4ai'', 30), (''firecrawl'', 30)]"
    by code_simp
  have e: "search_results ex_labels ex_catalog ?p = []"
    by code_simp
  note t = search_rank_sound [of ex_labels ex_catalog "''crawler''" 1 ex_catalog ?p]
  from t have l: "int (length (rank ex_labels ex_catalog ''crawler'' 1)) \<le> 1" by simp
  from t e have "yagoo_search ex_labels ex_catalog ?p = no_results_text (query ?p)" by blast
  then have y: "yagoo_search ex_labels ex_catalog ?p = no_results_text ''zzz''" by simp
  show ?thesis using r1 r2 l e y by simp
qed

section \<open>Properties of the comparison\<close>

lemma resolve_fold:
  "fold (resolve_step AGENTS) slugs st
     = (fst st @ List.map_filter (find_agent AGENTS) slugs,
        snd st @ filter (\<lambda>s. find_agent AGENTS s = None) slugs)"
proof (induction slugs arbitrary: st)
  case Nil
  show ?case by (simp add: List.map_filter_simps)
next
  case (Cons s slugs)
  have "fold (resolve_step AGENTS) (s # slugs) st
          = fold (resolve_step AGENTS) slugs (resolve_step AGENTS s st)"
    by simp
  also have "\<dots> = (fst (resolve_step AGENTS s st) @ List.map_filter (find_agent AGENTS) slugs,
                     snd (resolve_step AGENTS s st)
                       @ filter (\<lambda>s. find_agent AGENTS s = None) slugs)"
    by (rule Cons.IH)
  also have "\<dots> = (fst st @ List.map_filter (find_agent AGENTS) (s # slugs),
                     snd st @ filter (\<lambda>s. find_agent AGENTS s = None) (s # slugs))"
    by (cases "find_agent AGENTS s") (simp_all add: resolve_step_def List.map_filter_simps)
  finally show ?case .
qed

lemma resolve_slugs_eq:
  "resolve_slugs AGENTS slugs
     = (List.map_filter (find_agent AGENTS) slugs,
        filter (\<lambda>s. find_agent AGENTS s = None) slugs)"
  unfolding resolve_slugs_def by (simp add: resolve_fold)

lemma find_agent_None: "find_agent AGENTS s = None \<longleftrightarrow> s \<notin> slug ` set AGENTS"
  unfolding find_agent_def by (auto simp: find_None_iff)

lemma resolve_lengths:
  "length (fst (resolve_slugs AGENTS slugs)) + length (snd (resolve_slugs AGENTS slugs))
     = length slugs"
  unfolding resolve_slugs_eq
  by (induction slugs) (auto simp: List.map_filter_simps split: option.splits)

lemma resolved_all:
  assumes "snd (resolve_slugs AGENTS slugs) = []"
  shows "map Some (fst (resolve_slugs AGENTS slugs)) = map (find_agent AGENTS) slugs"
  using assms unfolding resolve_slugs_eq
  by (induction slugs) (auto simp: List.map_filter_simps split: option.splits if_splits)


lemma find_is_first: "is_first_where P xs (find P xs)"
proof (cases "find P xs")
  case None
  then have "\<forall>x \<in> set xs. \<not> P x"
    by (simp add: find_None_iff)
  then show ?thesis
    unfolding is_first_where_def None by simp
next
  case (Some a)
  then have "\<exists>i < length xs. P (xs ! i) \<and> a = xs ! i \<and> (\<forall>j < i. \<not> P (xs ! j))"
    by (simp add: find_Some_iff)
  then have "\<exists>i < length xs. xs ! i = a \<and> P a \<and> (\<forall>j < i. \<not> P (xs ! j))"
    by blast
  then show ?thesis
    unfolding is_first_where_def Some by simp
qed

lemma compare_outcome_cases:
  "compare_outcome AGENTS slugs =
     (if filter (\<lambda>s. find_agent AGENTS s = None) slugs \<noteq> []
      then Unresolved (filter (\<lambda>s. find_agent AGENTS s = None) slugs)
      else if length (List.map_filter (find_agent AGENTS) slugs) < 2 then TooFew
      else Compared (List.map_filter (find_agent AGENTS) slugs))"
  unfolding compare_outcome_def Let_def resolve_slugs_eq by simp

lemma unresolved_filter:
  "filter (\<lambda>s. find_agent AGENTS s = None) slugs = filter (\<lambda>s. s \<notin> slug ` set AGENTS) slugs"
  by (simp add: find_agent_None)

lemma comparison_text_hd: "hd (join nl (comparison_lines agents)) = CHR ''#''"
  unfolding comparison_lines_def comparison_tables_def by simp

lemma ex_slugs:
  "slug ex_cursor = ''cursor''" "slug ex_firecrawl = ''firecrawl''"
  "slug ex_crawl4ai = ''crawl4ai''"
  by (simp_all add: ex_cursor_def ex_firecrawl_def ex_crawl4ai_def)

lemma ex_names:
  "name ex_cursor = ''Cursor''" "name ex_firecrawl = ''Firecrawl''"
  "name ex_crawl4ai = ''Crawl4AI''"
  by (simp_all add: ex_cursor_def ex_firecrawl_def ex_crawl4ai_def)

lemma ex_picks:
  "budget_friendly ex_cursor" "\<not> budget_friendly ex_firecrawl" "budget_friendly ex_crawl4ai"
  "\<not> fully_autonomous ex_cursor" "fully_autonomous ex_firecrawl"
  "\<not> fully_autonomous ex_crawl4ai"
  "mcp_support ex_cursor" "mcp_support ex_firecrawl" "\<not> mcp_support ex_crawl4ai"
  by (simp_all add: budget_friendly_def fully_autonomous_def
        ex_cursor_def ex_firecrawl_def ex_crawl4ai_def)

lemma ex_find:
  "find_agent ex_catalog ''cursor'' = Some ex_cursor"
  "find_agent ex_catalog ''firecrawl'' = Some ex_firecrawl"
  "find_agent ex_catalog ''crawl4ai'' = Some ex_crawl4ai"
  "find_agent ex_catalog ''nope'' = None"
  "find_agent ex_catalog ''zip'' = None"
  by (simp_all add: find_agent_def ex_catalog_def ex_slugs)

text \<open>
  C3. When at least one slug of a compare call matches no slug of the catalog exactly, the
  handler takes the unresolved branch: its answer is the message that lists exactly the
  unresolved slugs, in input order, and the comparison is not produced, not even for the
  slugs that did resolve. (True of a slug list of any length, so of 2 to 5 slugs.)
\<close>

theorem compare_unresolved:
  assumes "\<exists>s \<in> set slugs. s \<notin> slug ` set AGENTS"
  shows "compare_outcome AGENTS slugs
           = Unresolved (filter (\<lambda>s. s \<notin> slug ` set AGENTS) slugs)
         \<and> yagoo_compare AGENTS slugs
           = ''Agents not found: '' @ join '', '' (filter (\<lambda>s. s \<notin> slug ` set AGENTS) slugs)
             @ ''. Use yagoo_search to find valid agent slugs.''"
proof -
  from assms have "filter (\<lambda>s. s \<notin> slug ` set AGENTS) slugs \<noteq> []"
    by (simp add: filter_empty_conv)
  then have "compare_outcome AGENTS slugs
           = Unresolved (filter (\<lambda>s. s \<notin> slug ` set AGENTS) slugs)"
    by (simp add: compare_outcome_cases unresolved_filter)
  then show ?thesis by (simp add: yagoo_compare_def)
qed

theorem compare_unresolved_witness:
  "''nope'' \<in> set [''cursor'', ''nope'', ''zip'']
   \<and> ''nope'' \<notin> slug ` set ex_catalog
   \<and> compare_outcome ex_catalog [''cursor'', ''nope'', ''zip''] = Unresolved [''nope'', ''zip'']
   \<and> yagoo_compare ex_catalog [''cursor'', ''nope'', ''zip'']
       = ''Agents not found: nope, zip. Use yagoo_search to find valid agent slugs.''"
proof -
  have n: "''nope'' \<notin> slug ` set ex_catalog"
    by (simp add: ex_catalog_def ex_slugs)
  have f: "filter (\<lambda>s. s \<notin> slug ` set ex_catalog) [''cursor'', ''nope'', ''zip'']
             = [''nope'', ''zip'']"
    by (simp add: ex_catalog_def ex_slugs)
  from n have h: "\<exists>s \<in> set [''cursor'', ''nope'', ''zip'']. s \<notin> slug ` set ex_catalog"
    by simp
  note t = compare_unresolved [OF h, unfolded f]
  from t have o: "compare_outcome ex_catalog [''cursor'', ''nope'', ''zip'']
                    = Unresolved [''nope'', ''zip'']"
    by (rule conjunct1)
  from t have "yagoo_compare ex_catalog [''cursor'', ''nope'', ''zip'']
       = ''Agents not found: '' @ join '', '' [''nope'', ''zip'']
         @ ''. Use yagoo_search to find valid agent slugs.''"
    by (rule conjunct2)
  then have y: "yagoo_compare ex_catalog [''cursor'', ''nope'', ''zip'']
       = ''Agents not found: nope, zip. Use yagoo_search to find valid agent slugs.''"
    by simp
  from n o y show ?thesis by simp
qed


text \<open>
  C10. For a slug list of at least 2 entries the minimum-count branch is never taken and
  its message is never the answer: every slug is pushed on one of the two arrays, so
  their lengths add up to the length of the slug list, and once the unresolved array is
  empty the resolved array is as long as the slug list (duplicates included), hence has
  at least 2 entries.
\<close>

theorem compare_min_count_unreachable:
  assumes "2 \<le> length slugs"
  shows "compare_outcome AGENTS slugs \<noteq> TooFew
         \<and> yagoo_compare AGENTS slugs \<noteq> too_few_text
         \<and> length (fst (resolve_slugs AGENTS slugs)) + length (snd (resolve_slugs AGENTS slugs))
             = length slugs
         \<and> (snd (resolve_slugs AGENTS slugs) = []
              \<longrightarrow> length (fst (resolve_slugs AGENTS slugs)) = length slugs
                  \<and> 2 \<le> length (fst (resolve_slugs AGENTS slugs)))"
proof -
  note len = resolve_lengths [of AGENTS slugs]
  have branch: "compare_outcome AGENTS slugs \<noteq> TooFew"
    using len assms unfolding compare_outcome_def Let_def by auto
  have msg: "yagoo_compare AGENTS slugs \<noteq> too_few_text"
  proof (cases "compare_outcome AGENTS slugs")
    case (Unresolved nf)
    then show ?thesis by (simp add: yagoo_compare_def too_few_text_def)
  next
    case TooFew
    with branch show ?thesis by simp
  next
    case (Compared agents)
    have "hd (yagoo_compare AGENTS slugs) = CHR ''#''"
      by (simp add: yagoo_compare_def Compared comparison_text_hd)
    moreover have "hd too_few_text = CHR ''N''"
      by (simp add: too_few_text_def)
    ultimately show ?thesis by auto
  qed
  from branch msg len assms show ?thesis by auto
qed


theorem compare_min_count_unreachable_witness:
  "2 \<le> length [''cursor'', ''cursor'']
   \<and> resolve_slugs ex_catalog [''cursor'', ''cursor''] = ([ex_cursor, ex_cursor], [])
   \<and> compare_outcome ex_catalog [''cursor'', ''cursor''] \<noteq> TooFew
   \<and> yagoo_compare ex_catalog [''cursor'', ''cursor''] \<noteq> too_few_text
   \<and> compare_outcome ex_catalog [''cursor''] = TooFew"
proof -
  have h: "2 \<le> length [''cursor'', ''cursor'']" by simp
  have r: "resolve_slugs ex_catalog [''cursor'', ''cursor''] = ([ex_cursor, ex_cursor], [])"
    by (simp add: resolve_slugs_def resolve_step_def ex_find)
  have o: "compare_outcome ex_catalog [''cursor''] = TooFew"
    by (simp add: compare_outcome_def resolve_slugs_def resolve_step_def ex_find)
  note t = compare_min_count_unreachable [OF h, of ex_catalog]
  from t have a: "compare_outcome ex_catalog [''cursor'', ''cursor''] \<noteq> TooFew"
    by (rule conjunct1)
  from t have b: "yagoo_compare ex_catalog [''cursor'', ''cursor''] \<noteq> too_few_text"
    by (elim conjE)
  from h r a b o show ?thesis by (intro conjI)
qed


text \<open>
  C7. When every slug of a compare call resolves, the agents compared are the looked-up
  agents in input order, and the three picks are the first of them that is free,
  open source or freemium, the first that is fully autonomous, and the first with
  protocol support. The answer ends with the recommendation heading followed by one line
  per pick; a pick for which no agent qualifies contributes no line.
\<close>

theorem compare_picks:
  assumes "compare_outcome AGENTS slugs = Compared agents"
  shows "map Some agents = map (find_agent AGENTS) slugs
         \<and> is_first_where budget_friendly agents (freeAgent agents)
         \<and> is_first_where fully_autonomous agents (autonomousAgent agents)
         \<and> is_first_where mcp_support agents (mcpAgent agents)
         \<and> yagoo_compare AGENTS slugs = join nl (comparison_lines agents)
         \<and> comparison_lines agents
             = comparison_tables agents @ [''## Quick Recommendations'']
               @ recommendation_lines agents
         \<and> recommendation_lines agents
             = pick_line ''Budget-friendly'' (freeAgent agents)
               @ pick_line ''For autonomous operation'' (autonomousAgent agents)
               @ pick_line ''MCP integration'' (mcpAgent agents)
         \<and> (\<forall>t. pick_line t None = [])
         \<and> (\<forall>t a. pick_line t (Some a) = [''- **'' @ t @ ''**: '' @ name a])"
proof -
  from assms have nf: "snd (resolve_slugs AGENTS slugs) = []"
    and ag: "agents = fst (resolve_slugs AGENTS slugs)"
    unfolding compare_outcome_def Let_def by (auto split: if_splits)
  have order: "map Some agents = map (find_agent AGENTS) slugs"
    unfolding ag using nf by (rule resolved_all)
  have out: "yagoo_compare AGENTS slugs = join nl (comparison_lines agents)"
    by (simp add: yagoo_compare_def assms)
  have picks: "is_first_where budget_friendly agents (freeAgent agents)"
      "is_first_where fully_autonomous agents (autonomousAgent agents)"
      "is_first_where mcp_support agents (mcpAgent agents)"
    unfolding freeAgent_def autonomousAgent_def mcpAgent_def by (rule find_is_first)+
  have lines: "(\<forall>t. pick_line t None = [])
               \<and> (\<forall>t a. pick_line t (Some a) = [''- **'' @ t @ ''**: '' @ name a])"
    by (simp add: pick_line_def)
  from order picks out lines show ?thesis
    by (simp add: recommendation_lines_def comparison_lines_def)
qed


theorem compare_picks_witness:
  "compare_outcome ex_catalog [''firecrawl'', ''cursor''] = Compared [ex_firecrawl, ex_cursor]
   \<and> is_first_where budget_friendly [ex_firecrawl, ex_cursor]
         (freeAgent [ex_firecrawl, ex_cursor])
   \<and> freeAgent [ex_firecrawl, ex_cursor] = Some ex_cursor
   \<and> autonomousAgent [ex_firecrawl, ex_cursor] = Some ex_firecrawl
   \<and> mcpAgent [ex_firecrawl, ex_cursor] = Some ex_firecrawl
   \<and> recommendation_lines [ex_firecrawl, ex_cursor]
       = [''- **Budget-friendly**: Cursor'',
          ''- **For autonomous operation**: Firecrawl'',
          ''- **MCP integration**: Firecrawl'']
   \<and> recommendation_lines [ex_crawl4ai, ex_crawl4ai] = [''- **Budget-friendly**: Crawl4AI'']"
proof -
  have h: "compare_outcome ex_catalog [''firecrawl'', ''cursor'']
             = Compared [ex_firecrawl, ex_cursor]"
    by (simp add: compare_outcome_def resolve_slugs_def resolve_step_def ex_find)
  have p: "freeAgent [ex_firecrawl, ex_cursor] = Some ex_cursor"
      "autonomousAgent [ex_firecrawl, ex_cursor] = Some ex_firecrawl"
      "mcpAgent [ex_firecrawl, ex_cursor] = Some ex_firecrawl"
    by (simp_all add: freeAgent_def autonomousAgent_def mcpAgent_def ex_picks)
  have p': "freeAgent [ex_crawl4ai, ex_crawl4ai] = Some ex_crawl4ai"
      "autonomousAgent [ex_crawl4ai, ex_crawl4ai] = None"
      "mcpAgent [ex_crawl4ai, ex_crawl4ai] = None"
    by (simp_all add: freeAgent_def autonomousAgent_def mcpAgent_def ex_picks)
  have l: "recommendation_lines [ex_crawl4ai, ex_crawl4ai] = [''- **Budget-friendly**: Crawl4AI'']"
    by (simp add: recommendation_lines_def pick_line_def p' ex_names)
  have l2: "recommendation_lines [ex_firecrawl, ex_cursor]
       = [''- **Budget-friendly**: Cursor'',
          ''- **For autonomous operation**: Firecrawl'',
          ''- **MCP integration**: Firecrawl'']"
    by (simp add: recommendation_lines_def pick_line_def p ex_names)
  from compare_picks [OF h]
  have f: "is_first_where budget_friendly [ex_firecrawl, ex_cursor]
             (freeAgent [ex_firecrawl, ex_cursor])"
    by (elim conjE)
  from h f p l2 l show ?thesis by (intro conjI)
qed

section \<open>Properties of the filter\<close>

lemma category_filter_eq:
  "category_filter copt xs = filter_spec (given copt) None xs"
  by (cases copt) (auto simp: category_filter_def filter_spec_def given_def truthy_def)

lemma pricing_filter_eq:
  "pricing_filter popt xs = filter_spec None (given popt) xs"
  by (cases popt) (auto simp: pricing_filter_def filter_spec_def given_def truthy_def)

lemma filter_spec_compose:
  "filter_spec None p (filter_spec c None xs) = filter_spec c p xs"
  by (simp add: filter_spec_def conj_commute)

lemma ex_cats:
  "primary_category ex_cursor = ''coding_development''"
  "primary_category ex_firecrawl = ''browser_automation''"
  "primary_category ex_crawl4ai = ''browser_automation''"
  "secondary_categories ex_cursor = []"
  "secondary_categories ex_firecrawl = [''research_analysis'']"
  "secondary_categories ex_crawl4ai = []"
  "pricing_model ex_cursor = ''freemium''"
  "pricing_model ex_firecrawl = ''paid''"
  "pricing_model ex_crawl4ai = ''open_source''"
  by (simp_all add: ex_cursor_def ex_firecrawl_def ex_crawl4ai_def)

text \<open>
  C4, as amended. For every list of agents and every optional category and pricing, the
  search filter keeps exactly the agents for which the category, when it is given and
  not the empty string, is the primary category or one of the secondary categories, and
  for which the pricing, when it is given and not the empty string, is the pricing model;
  both conditions must hold. An absent or empty parameter filters nothing. A non-empty
  value that matches no agent gives the empty list; the filter is total and raises
  nothing.
\<close>

theorem search_filter_amended:
  "search_filter copt popt agents = filter_spec (given copt) (given popt) agents"
  unfolding search_filter_def
  by (simp only: category_filter_eq pricing_filter_eq filter_spec_compose)

text \<open>
  The claim as first stated fails for the empty string: given as the category, it is the
  category of no agent of the small catalog, yet the handler keeps every agent.
\<close>

theorem search_filter_counterexample:
  "search_filter (Some '''') None ex_catalog = ex_catalog
   \<and> filter_spec (Some '''') None ex_catalog = []
   \<and> search_filter (Some '''') None ex_catalog \<noteq> filter_spec (Some '''') None ex_catalog"
proof -
  have a: "search_filter (Some '''') None ex_catalog = ex_catalog"
    by (simp add: search_filter_def category_filter_def pricing_filter_def truthy_def)
  have b: "filter_spec (Some '''') None ex_catalog = []"
    by (simp add: filter_spec_def ex_catalog_def ex_cats)
  have "ex_catalog \<noteq> []" by (simp add: ex_catalog_def)
  with a b show ?thesis by simp
qed

theorem search_filter_amended_witness:
  "search_filter (Some ''research_analysis'') None ex_catalog = [ex_firecrawl]
   \<and> search_filter (Some ''browser_automation'') (Some ''open_source'') ex_catalog = [ex_crawl4ai]
   \<and> search_filter (Some ''no_such_category'') None ex_catalog = []
   \<and> search_filter None (Some ''gratis'') ex_catalog = []
   \<and> search_filter (Some '''') (Some '''') ex_catalog = ex_catalog"
proof -
  have g: "given (Some ''research_analysis'') = Some ''research_analysis''"
      "given (Some ''browser_automation'') = Some ''browser_automation''"
      "given (Some ''open_source'') = Some ''open_source''"
      "given (Some ''no_such_category'') = Some ''no_such_category''"
      "given (Some ''gratis'') = Some ''gratis''"
      "given (Some '''') = None" "given None = None"
    by (simp_all add: given_def truthy_def)
  show ?thesis
    unfolding search_filter_amended g
    by (simp add: filter_spec_def ex_catalog_def ex_cats)
qed

text \<open>
  C8. Filtering is idempotent: applying the search filter with the same category and
  pricing to its own result gives that result again, same agents in the same order.
\<close>

theorem search_filter_idempotent:
  "search_filter copt popt (search_filter copt popt agents) = search_filter copt popt agents"
  unfolding search_filter_def category_filter_def pricing_filter_def Let_def
  by (simp add: conj_commute cong: conj_cong)


section \<open>Properties of the category listing\<close>

lemma count_or_zero_update:
  "count_or_zero (AList.update k v al) k' = (if k' = k then v else count_or_zero al k')"
  by (simp add: count_or_zero_def update_conv')

lemma categoryCounts_snoc:
  "categoryCounts (AGENTS @ [a])
     = AList.update (primary_category a)
         (count_or_zero (categoryCounts AGENTS) (primary_category a) + 1)
         (categoryCounts AGENTS)"
  by (simp add: categoryCounts_def)

lemma categoryCounts_count:
  "count_or_zero (categoryCounts AGENTS) k = primary_count AGENTS k"
proof (induction AGENTS rule: rev_induct)
  case Nil
  show ?case by (simp add: categoryCounts_def count_or_zero_def primary_count_def)
next
  case (snoc a AGENTS)
  have "primary_count (AGENTS @ [a]) k
          = (if primary_category a = k then primary_count AGENTS k + 1 else primary_count AGENTS k)"
    by (simp add: primary_count_def)
  then show ?case
    using snoc.IH
    by (auto simp only: categoryCounts_snoc count_or_zero_update snoc.IH split: if_splits)
qed

lemma indicator_sum_distinct:
  "distinct ks \<Longrightarrow> sum_list (map (\<lambda>k. if x = k then (1::nat) else 0) ks)
                      = (if x \<in> set ks then 1 else 0)"
  by (induction ks) auto

lemma primary_count_sum:
  assumes "distinct ks" and "\<forall>a \<in> set AGENTS. primary_category a \<in> set ks"
  shows "sum_list (map (primary_count AGENTS) ks) = length AGENTS"
  using assms(2)
proof (induction AGENTS)
  case Nil
  show ?case by (simp add: primary_count_def)
next
  case (Cons a AGENTS)
  have "sum_list (map (primary_count (a # AGENTS)) ks)
          = sum_list (map (\<lambda>k. (if primary_category a = k then 1 else 0)
                                 + primary_count AGENTS k) ks)"
    by (rule arg_cong [where f = sum_list]) (simp add: primary_count_def)
  also have "\<dots> = sum_list (map (\<lambda>k. if primary_category a = k then (1::nat) else 0) ks)
                   + sum_list (map (primary_count AGENTS) ks)"
    by (simp add: sum_list_addf)
  also have "\<dots> = 1 + length AGENTS"
    using Cons assms(1) by (simp add: indicator_sum_distinct)
  finally show ?case by simp
qed

lemma show_nat_small:
  "show_nat 0 = ''0''" "show_nat 1 = ''1''" "show_nat (Suc 0) = ''1''"
  "show_nat 2 = ''2''" "show_nat 3 = ''3''"
  by code_simp+

text \<open>
  C5. The count the listing prints for a category key is the number of agents whose
  primary category is that key (secondary categories do not count). The listing has one
  line per key of the label mapping, in the order of the mapping, also for a key counted
  0. When the keys of the mapping are distinct and every agent's primary category is one
  of them, as the data model requires, the printed counts sum to the size of the catalog.
\<close>

theorem category_listing:
  "(\<forall>k. count_or_zero (categoryCounts AGENTS) k = primary_count AGENTS k)
   \<and> category_lines L AGENTS
       = map (\<lambda>e. ''- **'' @ snd e @ ''** ('' @ fst e @ ''): ''
                  @ show_nat (primary_count AGENTS (fst e)) @ '' agent''
                  @ (if primary_count AGENTS (fst e) \<noteq> 1 then ''s'' else '''')) L
   \<and> length (category_lines L AGENTS) = length L
   \<and> yagoo_list_categories L AGENTS
       = join nl (categories_header AGENTS @ category_lines L AGENTS @ categories_footer)
   \<and> (distinct (map fst L) \<and> (\<forall>a \<in> set AGENTS. primary_category a \<in> fst ` set L)
        \<longrightarrow> sum_list (map (\<lambda>e. count_or_zero (categoryCounts AGENTS) (fst e)) L)
            = length AGENTS)"
proof -
  have lines: "category_lines L AGENTS
       = map (\<lambda>e. ''- **'' @ snd e @ ''** ('' @ fst e @ ''): ''
                  @ show_nat (primary_count AGENTS (fst e)) @ '' agent''
                  @ (if primary_count AGENTS (fst e) \<noteq> 1 then ''s'' else '''')) L"
    by (simp add: category_lines_def category_line_def Let_def categoryCounts_count)
  have total: "sum_list (map (\<lambda>e. count_or_zero (categoryCounts AGENTS) (fst e)) L)
                 = length AGENTS"
    if "distinct (map fst L)" and "\<forall>a \<in> set AGENTS. primary_category a \<in> fst ` set L"
  proof -
    have "sum_list (map (\<lambda>e. count_or_zero (categoryCounts AGENTS) (fst e)) L)
            = sum_list (map (primary_count AGENTS) (map fst L))"
      by (simp add: categoryCounts_count o_def)
    also have "\<dots> = length AGENTS"
      using that by (intro primary_count_sum) simp_all
    finally show ?thesis .
  qed
  have len: "length (category_lines L AGENTS) = length L"
    by (simp add: category_lines_def)
  from lines total len show ?thesis
    by (simp add: categoryCounts_count yagoo_list_categories_def)
qed

theorem category_listing_witness:
  "distinct (map fst ex_labels)
   \<and> sum_list (map (\<lambda>e. count_or_zero (categoryCounts ex_catalog) (fst e)) ex_labels) = 3
   \<and> category_lines ex_labels ex_catalog
       = [''- **Coding & Development** (coding_development): 1 agent'',
          ''- **Browser & Web Automation** (browser_automation): 2 agents'',
          ''- **Research & Analysis** (research_analysis): 0 agents'']"
proof -
  have d: "distinct (map fst ex_labels)"
    by (simp add: ex_labels_def)
  have m: "\<forall>a \<in> set ex_catalog. primary_category a \<in> fst ` set ex_labels"
    by (simp add: ex_catalog_def ex_labels_def ex_cats)
  note t = category_listing [of ex_catalog ex_labels]
  from t d m have "sum_list (map (\<lambda>e. count_or_zero (categoryCounts ex_catalog) (fst e)) ex_labels)
                     = length ex_catalog"
    by blast
  then have s: "sum_list (map (\<lambda>e. count_or_zero (categoryCounts ex_catalog) (fst e)) ex_labels) = 3"
    by (simp add: ex_catalog_def)
  have pc: "primary_count ex_catalog ''coding_development'' = 1"
      "primary_count ex_catalog ''browser_automation'' = 2"
      "primary_count ex_catalog ''research_analysis'' = 0"
    by (simp_all add: primary_count_def ex_catalog_def ex_cats)
  have e: "map (\<lambda>e. ''- **'' @ snd e @ ''** ('' @ fst e @ ''): ''
                  @ show_nat (primary_count ex_catalog (fst e)) @ '' agent''
                  @ (if primary_count ex_catalog (fst e) \<noteq> 1 then ''s'' else '''')) ex_labels
       = [''- **Coding & Development** (coding_development): 1 agent'',
          ''- **Browser & Web Automation** (browser_automation): 2 agents'',
          ''- **Research & Analysis** (research_analysis): 0 agents'']"
    by (simp add: ex_labels_def pc show_nat_small)
  from t have "category_lines ex_labels ex_catalog
       = map (\<lambda>e. ''- **'' @ snd e @ ''** ('' @ fst e @ ''): ''
                  @ show_nat (primary_count ex_catalog (fst e)) @ '' agent''
                  @ (if primary_count ex_catalog (fst e) \<noteq> 1 then ''s'' else '''')) ex_labels"
    by (elim conjE)
  with e have l: "category_lines ex_labels ex_catalog
       = [''- **Coding & Development** (coding_development): 1 agent'',
          ''- **Browser & Web Automation** (browser_automation): 2 agents'',
          ''- **Research & Analysis** (research_analysis): 0 agents'']"
    by (rule_tac trans)
  from d s l show ?thesis by (intro conjI)
qed


section \<open>Properties of the lookup by slug\<close>

lemma includes_sublist: "str_includes s t = sublist t s"
  by (induction s) (auto simp: sublist_Cons_right)

lemma suggestions_spec:
  "suggestions AGENTS s = map slug (take 3 (filter (suggest_match s) AGENTS))"
proof -
  have "suggest_match s = (\<lambda>a. str_includes (slug a) s
                                 \<or> str_includes (toLowerCase (name a)) (toLowerCase s))"
    by (rule ext) (simp add: suggest_match_def includes_sublist)
  then show ?thesis by (simp add: suggestions_def)
qed

text \<open>
  C6. A slug is looked up by exact match: the agent found is the first one of the catalog
  whose slug equals the argument, and the answer is its full profile. When no agent has
  that slug the answer is the not-found message, which offers the suggestions when there
  are any; the suggestions are the slugs of the first 3 agents, in catalog order, whose
  slug contains the argument or whose lowercased name contains the lowercased argument.
  The handler is total: it raises nothing.
\<close>

theorem get_agent_lookup:
  "is_first_where (\<lambda>a. slug a = s) AGENTS (find_agent AGENTS s)
   \<and> (find_agent AGENTS s = None \<longleftrightarrow> s \<notin> slug ` set AGENTS)
   \<and> (\<forall>a. find_agent AGENTS s = Some a
          \<longrightarrow> slug a = s \<and> a \<in> set AGENTS
              \<and> yagoo_get_agent L AGENTS s = formatAgentDetail L a)
   \<and> (s \<notin> slug ` set AGENTS
        \<longrightarrow> yagoo_get_agent L AGENTS s = not_found_text s (suggestions AGENTS s))
   \<and> suggestions AGENTS s = map slug (take 3 (filter (suggest_match s) AGENTS))
   \<and> length (suggestions AGENTS s) \<le> 3
   \<and> (\<forall>sugg. sugg \<noteq> []
          \<longrightarrow> not_found_text s sugg
              = ''Agent '' @ dq @ s @ dq @ '' not found. Did you mean: ''
                @ join '', '' sugg @ ''?'')
   \<and> not_found_text s []
       = ''Agent '' @ dq @ s @ dq @ '' not found. Use yagoo_search to find agents.''"
proof -
  have first: "is_first_where (\<lambda>a. slug a = s) AGENTS (find_agent AGENTS s)"
    unfolding find_agent_def by (rule find_is_first)
  have hit: "slug a = s \<and> a \<in> set AGENTS \<and> yagoo_get_agent L AGENTS s = formatAgentDetail L a"
    if "find_agent AGENTS s = Some a" for a
  proof -
    from that have "\<exists>i < length AGENTS. slug (AGENTS ! i) = s \<and> a = AGENTS ! i"
      unfolding find_agent_def by (auto simp: find_Some_iff)
    then have "slug a = s \<and> a \<in> set AGENTS" by auto
    then show ?thesis by (simp add: yagoo_get_agent_def that)
  qed
  have miss: "yagoo_get_agent L AGENTS s = not_found_text s (suggestions AGENTS s)"
    if "s \<notin> slug ` set AGENTS"
    using that by (simp add: yagoo_get_agent_def find_agent_None [symmetric])
  have len: "length (suggestions AGENTS s) \<le> 3"
    by (simp add: suggestions_def)
  have msg1: "\<forall>sugg. sugg \<noteq> []
          \<longrightarrow> not_found_text s sugg
              = ''Agent '' @ dq @ s @ dq @ '' not found. Did you mean: ''
                @ join '', '' sugg @ ''?''"
    by (simp add: not_found_text_def)
  have msg2: "not_found_text s []
       = ''Agent '' @ dq @ s @ dq @ '' not found. Use yagoo_search to find agents.''"
    by (simp add: not_found_text_def)
  from first find_agent_None [of AGENTS s] hit miss suggestions_spec [of AGENTS s] len msg1 msg2
  show ?thesis by blast
qed

theorem get_agent_lookup_witness:
  "yagoo_get_agent ex_labels ex_catalog ''cursor'' = formatAgentDetail ex_labels ex_cursor
   \<and> ''curso'' \<notin> slug ` set ex_catalog
   \<and> suggestions ex_catalog ''curso'' = [''cursor'']
   \<and> yagoo_get_agent ex_labels ex_catalog ''curso''
       = ''Agent '' @ dq @ ''curso'' @ dq @ '' not found. Did you mean: cursor?''
   \<and> suggestions ex_catalog ''CRAWL'' = [''firecrawl'', ''crawl4ai'']
   \<and> suggestions (ex_catalog @ ex_catalog) ''c'' = [''cursor'', ''firecrawl'', ''crawl4ai'']
   \<and> yagoo_get_agent ex_labels ex_catalog ''zzz''
       = ''Agent '' @ dq @ ''zzz'' @ dq @ '' not found. Use yagoo_search to find agents.''"
proof -
  note t1 = get_agent_lookup [of "''cursor''" ex_catalog ex_labels]
  note t2 = get_agent_lookup [of "''curso''" ex_catalog ex_labels]
  note t3 = get_agent_lookup [of "''zzz''" ex_catalog ex_labels]
  from t1 ex_find(1) have a: "yagoo_get_agent ex_labels ex_catalog ''cursor''
                       = formatAgentDetail ex_labels ex_cursor"
    by blast
  have n: "''curso'' \<notin> slug ` set ex_catalog" "''zzz'' \<notin> slug ` set ex_catalog"
    by (simp_all add: ex_catalog_def ex_slugs)
  have low: "toLowerCase ''curso'' = ''curso''" "toLowerCase ''CRAWL'' = ''crawl''"
      "toLowerCase ''c'' = ''c''" "toLowerCase ''zzz'' = ''zzz''"
      "toLowerCase ''Cursor'' = ''cursor''" "toLowerCase ''Firecrawl'' = ''firecrawl''"
      "toLowerCase ''Crawl4AI'' = ''crawl4ai''"
    by code_simp+
  have s1: "suggestions ex_catalog ''curso'' = [''cursor'']"
    and s2: "suggestions ex_catalog ''CRAWL'' = [''firecrawl'', ''crawl4ai'']"
    and s3: "suggestions (ex_catalog @ ex_catalog) ''c'' = [''cursor'', ''firecrawl'', ''crawl4ai'']"
    and s4: "suggestions ex_catalog ''zzz'' = []"
    by (simp_all add: suggestions_def ex_catalog_def ex_slugs ex_names low)
  from t2 n(1) have "yagoo_get_agent ex_labels ex_catalog ''curso''
                       = not_found_text ''curso'' (suggestions ex_catalog ''curso'')"
    by blast
  moreover from t2 have "not_found_text ''curso'' [''cursor'']
                       = ''Agent '' @ dq @ ''curso'' @ dq @ '' not found. Did you mean: ''
                         @ join '', '' [''cursor''] @ ''?''"
    by blast
  ultimately have b: "yagoo_get_agent ex_labels ex_catalog ''curso''
       = ''Agent '' @ dq @ ''curso'' @ dq @ '' not found. Did you mean: cursor?''"
    by (simp add: s1)
  from t3 n(2) have "yagoo_get_agent ex_labels ex_catalog ''zzz''
                       = not_found_text ''zzz'' (suggestions ex_catalog ''zzz'')"
    by blast
  moreover from t3 have "not_found_text ''zzz'' []
       = ''Agent '' @ dq @ ''zzz'' @ dq @ '' not found. Use yagoo_search to find agents.''"
    by blast
  ultimately have c: "yagoo_get_agent ex_labels ex_catalog ''zzz''
       = ''Agent '' @ dq @ ''zzz'' @ dq @ '' not found. Use yagoo_search to find agents.''"
    by (simp add: s4)
  from a n(1) s1 b s2 s3 c show ?thesis by (intro conjI)
qed


section \<open>Properties of the configuration block\<close>

lemma detail_contains_block:
  assumes "mcp_support a" and "mcp_config a = Some cfg"
  shows "\<exists>pre post. formatAgentDetail_lines L a
           = pre @ [''## MCP Server Configuration''] @ config_block cfg @ post"
proof -
  let ?post = "(if truthy (cfg_description cfg)
                then [''*'' @ the (cfg_description cfg) @ ''*''] else []) @ detail_tail a"
  have "formatAgentDetail_lines L a
          = (detail_head L a @ ['''']) @ [''## MCP Server Configuration'']
            @ config_block cfg @ ?post"
    using assms by (simp add: formatAgentDetail_lines_def mcp_section_def Let_def)
  then show ?thesis by blast
qed

lemma entry_contains_block:
  assumes "mcp_config a = Some cfg"
  shows "mcp_entry_lines a
           = [''## '' @ name a, ''*'' @ tagline a @ ''*'', ''''] @ [''**Connection:**'']
             @ config_block cfg
             @ ((if truthy (cfg_description cfg) then [the (cfg_description cfg)] else [])
                @ [''''])"
  using assms by (simp add: mcp_entry_lines_def)

lemma listing_contains_block:
  assumes "a \<in> set AGENTS" and "mcp_support a" and "mcp_config a = Some cfg"
  shows "\<exists>pre post. list_mcp_lines AGENTS = pre @ [''**Connection:**''] @ config_block cfg @ post"
proof -
  from assms have "a \<in> set (mcpAgents AGENTS)"
    by (simp add: mcpAgents_def)
  then obtain ys zs where split: "mcpAgents AGENTS = ys @ a # zs"
    by (auto simp: in_set_conv_decomp)
  let ?hd = "[''# MCP-Enabled Agents'', '''',
              show_nat (length (mcpAgents AGENTS)) @ '' agents with MCP server support:'', '''']"
  let ?ft = "[''---'', ''*Add to Claude Code: `claude mcp add <name> -- <command> <args>`*'']"
  let ?pre = "?hd @ concat (map mcp_entry_lines ys)
              @ [''## '' @ name a, ''*'' @ tagline a @ ''*'', '''']"
  let ?post = "((if truthy (cfg_description cfg) then [the (cfg_description cfg)] else [])
                @ ['''']) @ concat (map mcp_entry_lines zs) @ ?ft"
  have "concat (map mcp_entry_lines (mcpAgents AGENTS))
          = concat (map mcp_entry_lines ys) @ mcp_entry_lines a @ concat (map mcp_entry_lines zs)"
    by (simp add: split)
  then have "list_mcp_lines AGENTS
          = ?hd @ (concat (map mcp_entry_lines ys) @ mcp_entry_lines a
                   @ concat (map mcp_entry_lines zs)) @ ?ft"
    by (simp only: list_mcp_lines_def)
  also have "\<dots> = ?pre @ [''**Connection:**''] @ config_block cfg @ ?post"
    by (simp only: entry_contains_block [OF assms(3)] append_assoc)
  finally show ?thesis by blast
qed

lemma render_without_env:
  assumes "env cfg = None"
  shows "stringify [] (config_object cfg)
           = ''{'' @ nl
             @ ''  '' @ quote ''command'' @ '': '' @ quote (command cfg) @ '','' @ nl
             @ ''  '' @ quote ''args'' @ '': '' @ stringify ''  '' (JArray (map JString (args cfg)))
             @ nl @ ''}''"
  using assms by (simp add: config_object_def gap_def)

lemma render_with_env:
  assumes "env cfg = Some e"
  shows "stringify [] (config_object cfg)
           = ''{'' @ nl
             @ ''  '' @ quote ''command'' @ '': '' @ quote (command cfg) @ '','' @ nl
             @ ''  '' @ quote ''args'' @ '': '' @ stringify ''  '' (JArray (map JString (args cfg)))
             @ '','' @ nl
             @ ''  '' @ quote ''env'' @ '': ''
             @ stringify ''  '' (JObject (map (\<lambda>kv. (fst kv, JString (snd kv))) e))
             @ nl @ ''}''"
  using assms by (simp add: config_object_def gap_def)

lemma config_keys:
  "json_keys (config_object cfg)
     = [''command'', ''args''] @ (if env cfg = None then [] else [''env''])"
  by (cases "env cfg") (simp_all add: config_object_def)

text \<open>
  C9. For an agent with protocol support and a protocol configuration, the full profile
  and the protocol-capable listing (when the agent is in the catalog) both contain the
  same configuration block: the fence lines around the serialised object. The object has
  the keys \<open>command\<close> and \<open>args\<close>, and the key \<open>env\<close> exactly when the configuration has an
  env field. Without the field the rendered text closes after the args, with nothing for
  env; with the field the text goes on with the env entry and its mapping.
\<close>

theorem config_env_rendering:
  assumes "mcp_support a" and "mcp_config a = Some cfg"
  shows "(\<exists>pre post. formatAgentDetail_lines L a
             = pre @ [''## MCP Server Configuration''] @ config_block cfg @ post)
         \<and> (a \<in> set AGENTS
              \<longrightarrow> (\<exists>pre post. list_mcp_lines AGENTS
                      = pre @ [''**Connection:**''] @ config_block cfg @ post))
         \<and> config_block cfg = [''```json'', stringify [] (config_object cfg), ''```'']
         \<and> json_keys (config_object cfg)
             = [''command'', ''args''] @ (if env cfg = None then [] else [''env''])
         \<and> (env cfg = None
              \<longrightarrow> stringify [] (config_object cfg)
                  = ''{'' @ nl
                    @ ''  '' @ quote ''command'' @ '': '' @ quote (command cfg) @ '','' @ nl
                    @ ''  '' @ quote ''args'' @ '': ''
                    @ stringify ''  '' (JArray (map JString (args cfg)))
                    @ nl @ ''}'')
         \<and> (\<forall>e. env cfg = Some e
              \<longrightarrow> stringify [] (config_object cfg)
                  = ''{'' @ nl
                    @ ''  '' @ quote ''command'' @ '': '' @ quote (command cfg) @ '','' @ nl
                    @ ''  '' @ quote ''args'' @ '': ''
                    @ stringify ''  '' (JArray (map JString (args cfg)))
                    @ '','' @ nl
                    @ ''  '' @ quote ''env'' @ '': ''
                    @ stringify ''  '' (JObject (map (\<lambda>kv. (fst kv, JString (snd kv))) e))
                    @ nl @ ''}'')"
proof -
  have blk: "config_block cfg = [''```json'', stringify [] (config_object cfg), ''```'']"
    by (simp add: config_block_def)
  from detail_contains_block [OF assms, of L]
    listing_contains_block [OF _ assms, of AGENTS]
    blk config_keys [of cfg] render_without_env [of cfg] render_with_env [of cfg]
  show ?thesis by blast
qed

theorem config_env_rendering_witness:
  "mcp_support ex_cursor \<and> mcp_config ex_cursor = Some ex_cursor_config
   \<and> env ex_cursor_config = None
   \<and> json_keys (config_object ex_cursor_config) = [''command'', ''args'']
   \<and> stringify [] (config_object ex_cursor_config)
       = join nl
           [''{'',
            ''  '' @ dq @ ''command'' @ dq @ '': '' @ dq @ ''npx'' @ dq @ '','',
            ''  '' @ dq @ ''args'' @ dq @ '': ['',
            ''    '' @ dq @ ''-y'' @ dq @ '','',
            ''    '' @ dq @ ''cursor-mcp'' @ dq,
            ''  ]'',
            ''}'']
   \<and> mcp_support ex_firecrawl \<and> mcp_config ex_firecrawl = Some ex_firecrawl_config
   \<and> json_keys (config_object ex_firecrawl_config) = [''command'', ''args'', ''env'']
   \<and> stringify [] (config_object ex_firecrawl_config)
       = join nl
           [''{'',
            ''  '' @ dq @ ''command'' @ dq @ '': '' @ dq @ ''npx'' @ dq @ '','',
            ''  '' @ dq @ ''args'' @ dq @ '': ['',
            ''    '' @ dq @ ''-y'' @ dq @ '','',
            ''    '' @ dq @ ''firecrawl-mcp'' @ dq,
            ''  ],'',
            ''  '' @ dq @ ''env'' @ dq @ '': {'',
            ''    '' @ dq @ ''FIRECRAWL_API_KEY'' @ dq @ '': '' @ dq @ ''key'' @ dq,
            ''  }'',
            ''}'']"
proof -
  have c: "mcp_support ex_cursor" "mcp_config ex_cursor = Some ex_cursor_config"
    by (simp_all add: ex_cursor_def)
  have f: "mcp_support ex_firecrawl" "mcp_config ex_firecrawl = Some ex_firecrawl_config"
    by (simp_all add: ex_firecrawl_def)
  have e: "env ex_cursor_config = None"
      "env ex_firecrawl_config = Some [(''FIRECRAWL_API_KEY'', ''key'')]"
    by (simp_all add: ex_cursor_config_def ex_firecrawl_config_def)
  note tc = config_env_rendering [OF c, of ex_labels ex_catalog]
  note tf = config_env_rendering [OF f, of ex_labels ex_catalog]
  from tc e(1) have kc: "json_keys (config_object ex_cursor_config) = [''command'', ''args'']"
    by simp
  from tf e(2) have kf: "json_keys (config_object ex_firecrawl_config)
                           = [''command'', ''args'', ''env'']"
    by simp
  have q: "quote ''command'' = dq @ ''command'' @ dq" "quote ''args'' = dq @ ''args'' @ dq"
      "quote ''env'' = dq @ ''env'' @ dq" "quote ''npx'' = dq @ ''npx'' @ dq"
      "quote ''-y'' = dq @ ''-y'' @ dq" "quote ''cursor-mcp'' = dq @ ''cursor-mcp'' @ dq"
      "quote ''firecrawl-mcp'' = dq @ ''firecrawl-mcp'' @ dq"
      "quote ''FIRECRAWL_API_KEY'' = dq @ ''FIRECRAWL_API_KEY'' @ dq"
      "quote ''key'' = dq @ ''key'' @ dq"
    by code_simp+
  have v: "command ex_cursor_config = ''npx''" "args ex_cursor_config = [''-y'', ''cursor-mcp'']"
      "command ex_firecrawl_config = ''npx''"
      "args ex_firecrawl_config = [''-y'', ''firecrawl-mcp'']"
    by (simp_all add: ex_cursor_config_def ex_firecrawl_config_def)
  from tc e(1) have "stringify [] (config_object ex_cursor_config)
       = ''{'' @ nl
         @ ''  '' @ quote ''command'' @ '': '' @ quote (command ex_cursor_config) @ '','' @ nl
         @ ''  '' @ quote ''args'' @ '': ''
         @ stringify ''  '' (JArray (map JString (args ex_cursor_config)))
         @ nl @ ''}''"
    by blast
  then have rc: "stringify [] (config_object ex_cursor_config)
       = join nl
           [''{'',
            ''  '' @ dq @ ''command'' @ dq @ '': '' @ dq @ ''npx'' @ dq @ '','',
            ''  '' @ dq @ ''args'' @ dq @ '': ['',
            ''    '' @ dq @ ''-y'' @ dq @ '','',
            ''    '' @ dq @ ''cursor-mcp'' @ dq,
            ''  ]'',
            ''}'']"
    by (simp add: v q gap_def)
  from tf e(2) have "stringify [] (config_object ex_firecrawl_config)
       = ''{'' @ nl
         @ ''  '' @ quote ''command'' @ '': '' @ quote (command ex_firecrawl_config) @ '','' @ nl
         @ ''  '' @ quote ''args'' @ '': ''
         @ stringify ''  '' (JArray (map JString (args ex_firecrawl_config)))
         @ '','' @ nl
         @ ''  '' @ quote ''env'' @ '': ''
         @ stringify ''  '' (JObject (map (\<lambda>kv. (fst kv, JString (snd kv)))
                                       [(''FIRECRAWL_API_KEY'', ''key'')]))
         @ nl @ ''}''"
    by blast
  then have rf: "stringify [] (config_object ex_firecrawl_config)
       = join nl
           [''{'',
            ''  '' @ dq @ ''command'' @ dq @ '': '' @ dq @ ''npx'' @ dq @ '','',
            ''  '' @ dq @ ''args'' @ dq @ '': ['',
            ''    '' @ dq @ ''-y'' @ dq @ '','',
            ''    '' @ dq @ ''firecrawl-mcp'' @ dq,
            ''  ],'',
            ''  '' @ dq @ ''env'' @ dq @ '': {'',
            ''    '' @ dq @ ''FIRECRAWL_API_KEY'' @ dq @ '': '' @ dq @ ''key'' @ dq,
            ''  }'',
            ''}'']"
    by (simp add: v q gap_def)
  from c e(1) kc rc f kf rf show ?thesis by (intro conjI)
qed


end
